theory Spec2Isabelle
  imports Complex_Main "HOL-Library.Word"
begin

section \<open>Qt strings and containers\<close>

text \<open>
  The outcomes of an operation that does not return normally.
  \<^item> \<open>IndexOutOfRange\<close>: \<open>operator[]\<close> of \<open>QVector\<close>/\<open>QStringList\<close> with an index outside
    \<open>0 .. size-1\<close> (the container's "index out of range" assertion; past it the access is
    undefined).
  \<^item> \<open>MalformedInputError\<close>: the error the specification names for a bad mesh source. No
    function of the program constructs it; it is declared so that statements about it
    can be written.
\<close>

datatype error = IndexOutOfRange | MalformedInputError

definition bindE :: "error + 'a \<Rightarrow> ('a \<Rightarrow> error + 'b) \<Rightarrow> error + 'b" where
  "bindE r f = (case r of Inl e \<Rightarrow> Inl e | Inr x \<Rightarrow> f x)"

text \<open>
  \<open>xs[i]\<close>. The program indexes with \<open>int\<close> loop counters, literals and \<open>unsigned\<close> values;
  a container holds fewer than \<open>2^31\<close> elements, so an unsigned index is in range exactly
  when its value is below the size.
\<close>

definition elem_at :: "'a list \<Rightarrow> nat \<Rightarrow> error + 'a" where
  "elem_at xs i = (if i < length xs then Inr (xs ! i) else Inl IndexOutOfRange)"

text \<open>\<open>QString::startsWith\<close>.\<close>

definition startsWith :: "string \<Rightarrow> string \<Rightarrow> bool" where
  "startsWith s p = (take (length p) s = p)"

text \<open>
  \<open>QString::split\<close> at a one-character separator. With \<open>Qt::KeepEmptyParts\<close> (the default)
  the result has one more entry than the string has separators, so it is never empty;
  \<open>Qt::SkipEmptyParts\<close> drops the empty entries.
\<close>

fun split_KeepEmptyParts :: "char \<Rightarrow> string \<Rightarrow> string list" where
  "split_KeepEmptyParts sep [] = [[]]"
| "split_KeepEmptyParts sep (c # cs) =
     (if c = sep then [] # split_KeepEmptyParts sep cs
      else (case split_KeepEmptyParts sep cs of
              [] \<Rightarrow> [[c]]
            | p # ps \<Rightarrow> (c # p) # ps))"

definition split_SkipEmptyParts :: "char \<Rightarrow> string \<Rightarrow> string list" where
  "split_SkipEmptyParts sep s = filter (\<lambda>p. p \<noteq> []) (split_KeepEmptyParts sep s)"

text \<open>
  The two number conversions of \<open>QString\<close> the loader calls are library code; the model
  takes them as parameters. \<open>toUInt\<close> returns a 32-bit \<open>unsigned\<close>; \<open>'f\<close> stands for \<open>float\<close>.
\<close>

record 'f QStringOps =
  toFloat :: "string \<Rightarrow> 'f"
  toUInt :: "string \<Rightarrow> 32 word"

text \<open>
  \<open>QVector::contains\<close> and \<open>QVector::indexOf\<close> (first index of a value, \<open>-1\<close> when absent).
  Both compare with the element's \<open>operator==\<close>; for \<open>QVector3D\<close> that is the exact
  comparison of the three components, modelled by equality of the values (so \<open>+0\<close> and \<open>-0\<close>
  are one value, and a NaN component, which compares unequal to itself, is outside the
  model).
\<close>

definition contains :: "'a list \<Rightarrow> 'a \<Rightarrow> bool" where
  "contains xs v = (v \<in> set xs)"

fun indexOf_from :: "'a list \<Rightarrow> 'a \<Rightarrow> int \<Rightarrow> int" where
  "indexOf_from [] v k = - 1"
| "indexOf_from (x # xs) v k = (if x = v then k else indexOf_from xs v (k + 1))"

definition indexOf :: "'a list \<Rightarrow> 'a \<Rightarrow> int" where
  "indexOf xs v = indexOf_from xs v 0"

section \<open>model.cpp: the mesh loader\<close>

record 'f QVector3D =
  xp :: 'f
  yp :: 'f
  zp :: 'f

record 'f Model =
  coordsIndexed :: "'f QVector3D list"
  indices :: "32 word list"
  coords :: "'f QVector3D list"

definition empty_Model :: "'f Model" where
  "empty_Model = \<lparr>coordsIndexed = [], indices = [], coords = []\<rparr>"

text \<open>\<open>Model::parseVertex\<close>: reads \<open>tokens[1]\<close>, \<open>tokens[2]\<close>, \<open>tokens[3]\<close>.\<close>

definition parseVertex :: "'f QStringOps \<Rightarrow> string list \<Rightarrow> 'f Model \<Rightarrow> error + 'f Model" where
  "parseVertex q tokens m =
     bindE (elem_at tokens 1) (\<lambda>t1.
     bindE (elem_at tokens 2) (\<lambda>t2.
     bindE (elem_at tokens 3) (\<lambda>t3.
       Inr (m\<lparr>coordsIndexed := coordsIndexed m @
              [\<lparr>xp = toFloat q t1, yp = toFloat q t2, zp = toFloat q t3\<rparr>]\<rparr>))))"

text \<open>
  \<open>Model::parseFace\<close>: for every token after the first, the text before the first \<open>/\<close>
  is converted and one is subtracted in \<open>unsigned\<close> arithmetic (reference \<open>0\<close> wraps to
  \<open>2^32 - 1\<close>). The loop runs \<open>i = 1\<close> until \<open>i = tokens.size()\<close>; on an empty token list it
  would start by reading \<open>tokens[1]\<close>.
\<close>

fun parseFace_loop :: "'f QStringOps \<Rightarrow> string list \<Rightarrow> 'f Model \<Rightarrow> error + 'f Model" where
  "parseFace_loop q [] m = Inr m"
| "parseFace_loop q (t # ts) m =
     bindE (elem_at (split_KeepEmptyParts CHR ''/'' t) 0) (\<lambda>e0.
       parseFace_loop q ts (m\<lparr>indices := indices m @ [toUInt q e0 - 1]\<rparr>))"

definition parseFace :: "'f QStringOps \<Rightarrow> string list \<Rightarrow> 'f Model \<Rightarrow> error + 'f Model" where
  "parseFace q tokens m =
     (case tokens of
        [] \<Rightarrow> Inl IndexOutOfRange
      | t0 # ts \<Rightarrow> parseFace_loop q ts m)"

text \<open>\<open>Model::unpackIndexes\<close>: \<open>coords\<close> becomes \<open>coordsIndexed[indices[i]]\<close> for every \<open>i\<close>.\<close>

fun unpack_loop :: "'a list \<Rightarrow> 32 word list \<Rightarrow> 'a list \<Rightarrow> error + 'a list" where
  "unpack_loop cs [] acc = Inr acc"
| "unpack_loop cs (i # is) acc = bindE (elem_at cs (unat i)) (\<lambda>v. unpack_loop cs is (acc @ [v]))"

definition unpackIndexes :: "'f Model \<Rightarrow> error + 'f Model" where
  "unpackIndexes m =
     bindE (unpack_loop (coordsIndexed m) (indices m) []) (\<lambda>c. Inr (m\<lparr>coords := c\<rparr>))"

text \<open>
  \<open>Model::alignData\<close>: the loop carries \<open>verts\<close>, \<open>ind\<close> and \<open>currentIndex\<close>;
  \<open>verts.indexOf(v)\<close> is an \<open>int\<close> appended to a vector of \<open>unsigned\<close>.
\<close>

fun align_loop ::
  "'a list \<Rightarrow> 32 word list \<Rightarrow> 'a list \<Rightarrow> 32 word list \<Rightarrow> 32 word \<Rightarrow> error + ('a list \<times> 32 word list)" where
  "align_loop cs [] verts ind currentIndex = Inr (verts, ind)"
| "align_loop cs (i # is) verts ind currentIndex =
     bindE (elem_at cs (unat i)) (\<lambda>v.
       if contains verts v
       then align_loop cs is verts (ind @ [word_of_int (indexOf verts v)]) currentIndex
       else align_loop cs is (verts @ [v]) (ind @ [currentIndex]) (currentIndex + 1))"

definition alignData :: "'f Model \<Rightarrow> error + 'f Model" where
  "alignData m =
     bindE (align_loop (coordsIndexed m) (indices m) [] [] 0) (\<lambda>r.
       Inr (m\<lparr>coordsIndexed := fst r, indices := snd r\<rparr>))"

text \<open>
  The body of the read loop of \<open>Model::Model\<close> for one line returned by \<open>readLine\<close>.
  \<open>tokens[0]\<close> is read on every line that is not a comment.
\<close>

definition processLine :: "'f QStringOps \<Rightarrow> string \<Rightarrow> 'f Model \<Rightarrow> error + 'f Model" where
  "processLine q line m =
     (if startsWith line ''#'' then Inr m
      else let tokens = split_SkipEmptyParts CHR '' '' line in
        bindE (elem_at tokens 0) (\<lambda>t0.
          if t0 = ''v'' then parseVertex q tokens m
          else if t0 = ''f'' then parseFace q tokens m
          else Inr m))"

fun readLines :: "'f QStringOps \<Rightarrow> string list \<Rightarrow> 'f Model \<Rightarrow> error + 'f Model" where
  "readLines q [] m = Inr m"
| "readLines q (l # ls) m = bindE (processLine q l m) (readLines q ls)"

text \<open>
  \<open>Model::Model\<close>. The file is \<open>None\<close> when it cannot be opened (the constructor then leaves
  the three vectors empty) and otherwise the list of its lines.
\<close>

definition Model_ctor :: "'f QStringOps \<Rightarrow> string list option \<Rightarrow> error + 'f Model" where
  "Model_ctor q file =
     (case file of
        None \<Rightarrow> Inr empty_Model
      | Some lines \<Rightarrow>
          bindE (readLines q lines empty_Model) (\<lambda>m.
          bindE (unpackIndexes m) alignData))"

definition getMeshCoords :: "'f Model \<Rightarrow> 'f QVector3D list" where
  "getMeshCoords m = coords m"

definition getCoords :: "'f Model \<Rightarrow> 'f QVector3D list" where
  "getCoords m = coordsIndexed m"

definition getTriangleIndices :: "'f Model \<Rightarrow> 32 word list" where
  "getTriangleIndices m = indices m"

definition getNumTriangles :: "'f Model \<Rightarrow> int" where
  "getNumTriangles m = int (length (coords m)) div 3"

section \<open>mainview.cpp: transforms and drawing\<close>

text \<open>
  \<open>QMatrix4x4\<close> is library code: the model takes its operations as parameters, over a type
  \<open>'m\<close> of matrices. \<open>mat_identity\<close> is the default-constructed matrix and the result of
  \<open>setToIdentity\<close>; \<open>mat_translate\<close>, \<open>mat_rotate\<close> (angle and axis), \<open>mat_scale\<close> and
  \<open>mat_perspective\<close> are \<open>translate\<close>, \<open>rotate\<close>, \<open>scale\<close> and \<open>perspective\<close>, returning the
  updated matrix. \<open>float_of\<close> is the \<open>float\<close> value of a numeric literal of the source or of
  an \<open>int\<close> passed where a \<open>float\<close> is expected, and \<open>float_abs\<close> is the \<open>abs\<close> the program
  calls on a coordinate.
\<close>

record ('f, 'm) QMatrix4x4Ops =
  mat_identity :: 'm
  mat_translate :: "'m \<Rightarrow> 'f \<Rightarrow> 'f \<Rightarrow> 'f \<Rightarrow> 'm"
  mat_rotate :: "'m \<Rightarrow> 'f \<Rightarrow> 'f \<Rightarrow> 'f \<Rightarrow> 'f \<Rightarrow> 'm"
  mat_scale :: "'m \<Rightarrow> 'f \<Rightarrow> 'm"
  mat_perspective :: "'m \<Rightarrow> 'f \<Rightarrow> 'f \<Rightarrow> 'f \<Rightarrow> 'f \<Rightarrow> 'm"
  float_of :: "rat \<Rightarrow> 'f"
  float_abs :: "'f \<Rightarrow> 'f"

text \<open>
  Modelled from the spec: \<open>vertex.h\<close> is not among the sources. The program uses \<open>Vertex\<close> as
  a plain struct of six floats, position \<open>x y z\<close> then colour \<open>r g b\<close> (attribute 0 and
  attribute 1 of the fixed layout).
\<close>

record 'f Vertex =
  Vertex_x :: 'f
  Vertex_y :: 'f
  Vertex_z :: 'f
  Vertex_r :: 'f
  Vertex_g :: 'f
  Vertex_b :: 'f

text \<open>
  The fields of \<open>MainView\<close> the modelled functions use. \<open>gl_buffer_data\<close> is the content of the
  GL buffer objects by name and \<open>update_requested\<close> the repaint request of \<open>update()\<close>; both
  belong to the context rather than to the class.
\<close>

record ('f, 'm) MainView =
  buffer :: "32 word"
  array :: "32 word"
  knotVBO :: "32 word"
  knotVAO :: "32 word"
  model :: 'm
  knotModel :: 'm
  projection :: 'm
  modLoc :: int
  projLoc :: int
  rotX :: int
  rotY :: int
  rotZ :: int
  scaling :: 'f
  gl_buffer_data :: "32 word \<rightharpoonup> 'f Vertex list"
  update_requested :: bool

text \<open>The names the GL driver hands out in \<open>initializeGL\<close> and \<open>createShaderProgram\<close>.\<close>

record GLnames =
  gen_buffer :: "32 word"
  gen_knotVBO :: "32 word"
  gen_array :: "32 word"
  gen_knotVAO :: "32 word"
  loc_modelTransform :: int
  loc_projectionTransform :: int

text \<open>
  The member initialisers of \<open>mainview.h\<close>: the three matrices are default-constructed, the
  rotation is zero and the scale one. The GL names have no initialiser (\<open>0\<close> here).
\<close>

definition MainView_ctor :: "('f, 'm) QMatrix4x4Ops \<Rightarrow> ('f, 'm) MainView" where
  "MainView_ctor M =
     \<lparr>buffer = 0, array = 0, knotVBO = 0, knotVAO = 0,
      model = mat_identity M, knotModel = mat_identity M, projection = mat_identity M,
      modLoc = 0, projLoc = 0, rotX = 0, rotY = 0, rotZ = 0, scaling = float_of M 1,
      gl_buffer_data = Map.empty, update_requested = False\<rparr>"

definition mkVertex :: "('f, 'm) QMatrix4x4Ops \<Rightarrow> rat \<Rightarrow> rat \<Rightarrow> rat \<Rightarrow> rat \<Rightarrow> rat \<Rightarrow> rat \<Rightarrow> 'f Vertex" where
  "mkVertex M x y z r g b =
     \<lparr>Vertex_x = float_of M x, Vertex_y = float_of M y, Vertex_z = float_of M z,
      Vertex_r = float_of M r, Vertex_g = float_of M g, Vertex_b = float_of M b\<rparr>"

text \<open>The array \<open>pyramid[18] = {a,e,d,b,a,d,d,c,b,b,c,a,a,c,e,e,c,d}\<close> of \<open>mainview.h\<close>.\<close>

definition pyramid :: "('f, 'm) QMatrix4x4Ops \<Rightarrow> 'f Vertex list" where
  "pyramid M =
     (let a = mkVertex M (- 1) 1 1 1 0 0;
          b = mkVertex M 1 1 1 0 1 0;
          c = mkVertex M 0 0 (- 1) 1 0 1;
          d = mkVertex M 1 (- 1) 1 1 1 0;
          e = mkVertex M (- 1) (- 1) 1 0 0 1
      in [a, e, d, b, a, d, d, c, b, b, c, a, a, c, e, e, c, d])"

text \<open>
  \<open>MainView::fillArrayAndBuffer\<close> (its parameter \<open>size\<close> is \<open>sz\<close> here): \<open>glBufferData\<close> copies
  \<open>sizeof(Vertex) * size\<close> bytes from \<open>vertices\<close> into the buffer \<open>buf\<close>; an array shorter than
  \<open>size\<close> is read past its end.
\<close>

definition fillArrayAndBuffer ::
  "32 word \<Rightarrow> 32 word \<Rightarrow> int \<Rightarrow> 'f Vertex list \<Rightarrow> ('f, 'm) MainView \<Rightarrow> error + ('f, 'm) MainView" where
  "fillArrayAndBuffer buf arr sz vertices v =
     (if sz \<le> int (length vertices)
      then Inr (v\<lparr>gl_buffer_data := (gl_buffer_data v)(buf \<mapsto> take (nat sz) vertices)\<rparr>)
      else Inl IndexOutOfRange)"

text \<open>The loop of \<open>initializeGL\<close> that fills \<open>knotArray\<close>, one \<open>Vertex\<close> per flat coordinate.\<close>

definition knotVertex :: "('f, 'm) QMatrix4x4Ops \<Rightarrow> 'f QVector3D \<Rightarrow> 'f Vertex" where
  "knotVertex M p =
     \<lparr>Vertex_x = xp p, Vertex_y = yp p, Vertex_z = zp p,
      Vertex_r = float_abs M (xp p), Vertex_g = float_abs M (yp p), Vertex_b = float_abs M (zp p)\<rparr>"

text \<open>
  \<open>MainView::initializeGL\<close>, from the loading of the knot on; \<open>knot_obj\<close> is the resource
  \<open>:/models/knot.obj\<close>, which is not among the sources.
\<close>

definition initializeGL ::
  "('f, 'm) QMatrix4x4Ops \<Rightarrow> 'f QStringOps \<Rightarrow> GLnames \<Rightarrow> string list option \<Rightarrow>
   ('f, 'm) MainView \<Rightarrow> error + ('f, 'm) MainView" where
  "initializeGL M q gl knot_obj v =
     bindE (Model_ctor q knot_obj) (\<lambda>knot.
       let knotVertices = getMeshCoords knot;
           knotArray = map (knotVertex M) knotVertices;
           v1 = v\<lparr>buffer := gen_buffer gl, knotVBO := gen_knotVBO gl,
                  array := gen_array gl, knotVAO := gen_knotVAO gl,
                  modLoc := loc_modelTransform gl, projLoc := loc_projectionTransform gl\<rparr>
       in
       bindE (fillArrayAndBuffer (buffer v1) (array v1) 18 (pyramid M) v1) (\<lambda>v2.
       bindE (fillArrayAndBuffer (knotVBO v2) (knotVAO v2) 3840 knotArray v2) (\<lambda>v3.
         Inr (v3\<lparr>model := mat_translate M (model v3) (float_of M (- 2)) (float_of M 0) (float_of M (- 6)),
                 knotModel := mat_translate M (knotModel v3) (float_of M 2) (float_of M 0) (float_of M (- 6)),
                 projection := mat_perspective M (projection v3) (float_of M 60) (float_of M (4 / 3))
                                 (float_of M (2 / 10)) (float_of M 20)\<rparr>))))"

text \<open>The calls \<open>paintGL\<close> makes, in order.\<close>

datatype 'm GLcall =
  GlClear
  | ShaderProgramBind
  | GlUniformMatrix4fv int 'm
  | GlBindVertexArray "32 word"
  | GlDrawArrays int int
  | ShaderProgramRelease

definition paintGL :: "('f, 'm) MainView \<Rightarrow> 'm GLcall list" where
  "paintGL v =
     [GlClear, ShaderProgramBind,
      GlUniformMatrix4fv (modLoc v) (model v),
      GlUniformMatrix4fv (projLoc v) (projection v),
      GlBindVertexArray (array v),
      GlDrawArrays 0 18,
      GlUniformMatrix4fv (modLoc v) (knotModel v),
      GlUniformMatrix4fv (projLoc v) (projection v),
      GlBindVertexArray (knotVAO v),
      GlDrawArrays 0 3840,
      ShaderProgramRelease]"

text \<open>
  The draw calls of a call sequence, each with the vertex array bound when it is issued
  and the vertex count it passes.
\<close>

fun draw_calls :: "32 word \<Rightarrow> 'm GLcall list \<Rightarrow> (32 word \<times> int) list" where
  "draw_calls bound [] = []"
| "draw_calls bound (GlBindVertexArray a # cs) = draw_calls a cs"
| "draw_calls bound (GlDrawArrays first n # cs) = (bound, n) # draw_calls bound cs"
| "draw_calls bound (c # cs) = draw_calls bound cs"

text \<open>\<open>MainView::rotateAndScale\<close>, \<open>MainView::setRotation\<close> and \<open>MainView::setScale\<close>.\<close>

definition rotateAndScale :: "('f, 'm) QMatrix4x4Ops \<Rightarrow> ('f, 'm) MainView \<Rightarrow> ('f, 'm) MainView" where
  "rotateAndScale M v =
     (let one = float_of M 1; zero = float_of M 0;
          v1 = v\<lparr>model := mat_identity M\<rparr>;
          v2 = v1\<lparr>knotModel := mat_identity M\<rparr>;
          v3 = v2\<lparr>model := mat_translate M (model v2) (float_of M (- 2)) (float_of M 0) (float_of M (- 6))\<rparr>;
          v4 = v3\<lparr>knotModel := mat_translate M (knotModel v3) (float_of M 2) (float_of M 0) (float_of M (- 6))\<rparr>;
          v5 = v4\<lparr>model := mat_rotate M (model v4) (float_of M (of_int (rotX v4))) one zero zero\<rparr>;
          v6 = v5\<lparr>model := mat_rotate M (model v5) (float_of M (of_int (rotY v5))) zero one zero\<rparr>;
          v7 = v6\<lparr>model := mat_rotate M (model v6) (float_of M (of_int (rotZ v6))) zero zero one\<rparr>;
          v8 = v7\<lparr>model := mat_scale M (model v7) (scaling v7)\<rparr>;
          v9 = v8\<lparr>knotModel := mat_rotate M (knotModel v8) (float_of M (of_int (rotX v8))) one zero zero\<rparr>;
          v10 = v9\<lparr>knotModel := mat_rotate M (knotModel v9) (float_of M (of_int (rotY v9))) zero one zero\<rparr>;
          v11 = v10\<lparr>knotModel := mat_rotate M (knotModel v10) (float_of M (of_int (rotZ v10))) zero zero one\<rparr>;
          v12 = v11\<lparr>knotModel := mat_scale M (knotModel v11) (scaling v11)\<rparr>
      in v12\<lparr>update_requested := True\<rparr>)"

definition setRotation ::
  "('f, 'm) QMatrix4x4Ops \<Rightarrow> int \<Rightarrow> int \<Rightarrow> int \<Rightarrow> ('f, 'm) MainView \<Rightarrow> ('f, 'm) MainView" where
  "setRotation M rotateX rotateY rotateZ v =
     rotateAndScale M (v\<lparr>rotX := rotateX, rotY := rotateY, rotZ := rotateZ\<rparr>)"

definition setScale :: "('f, 'm) QMatrix4x4Ops \<Rightarrow> 'f \<Rightarrow> ('f, 'm) MainView \<Rightarrow> ('f, 'm) MainView" where
  "setScale M scale v = rotateAndScale M (v\<lparr>scaling := scale\<rparr>)"

section \<open>The composition order of the specification\<close>

text \<open>
  The model matrix as the specification words it: starting from the identity, a list of
  transformations applied one after the other.
\<close>

datatype 'f transform_step =
  Translate 'f 'f 'f
  | RotateAboutX 'f
  | RotateAboutY 'f
  | RotateAboutZ 'f
  | UniformScale 'f

fun apply_step :: "('f, 'm) QMatrix4x4Ops \<Rightarrow> 'm \<Rightarrow> 'f transform_step \<Rightarrow> 'm" where
  "apply_step M m (Translate x y z) = mat_translate M m x y z"
| "apply_step M m (RotateAboutX a) = mat_rotate M m a (float_of M 1) (float_of M 0) (float_of M 0)"
| "apply_step M m (RotateAboutY a) = mat_rotate M m a (float_of M 0) (float_of M 1) (float_of M 0)"
| "apply_step M m (RotateAboutZ a) = mat_rotate M m a (float_of M 0) (float_of M 0) (float_of M 1)"
| "apply_step M m (UniformScale s) = mat_scale M m s"

definition compose_steps :: "('f, 'm) QMatrix4x4Ops \<Rightarrow> 'f transform_step list \<Rightarrow> 'm" where
  "compose_steps M steps = foldl (apply_step M) (mat_identity M) steps"

text \<open>
  The matrix of an instance group: its translation offset, then the rotations about X, Y
  and Z by the angles in degrees, then the uniform scale.
\<close>

definition instance_matrix ::
  "('f, 'm) QMatrix4x4Ops \<Rightarrow> rat \<times> rat \<times> rat \<Rightarrow> int \<Rightarrow> int \<Rightarrow> int \<Rightarrow> 'f \<Rightarrow> 'm" where
  "instance_matrix M offset x y z s =
     (case offset of (tx, ty, tz) \<Rightarrow>
        compose_steps M
          [Translate (float_of M tx) (float_of M ty) (float_of M tz),
           RotateAboutX (float_of M (of_int x)),
           RotateAboutY (float_of M (of_int y)),
           RotateAboutZ (float_of M (of_int z)),
           UniformScale s])"

section \<open>Mesh sources\<close>

text \<open>
  What a source, given as its list of lines, means to the loader. \<open>tokenize\<close> is the split of
  the read loop. A vertex line and a face line are lines that are not comments and whose
  first token is \<open>v\<close> and \<open>f\<close>. \<open>positions\<close> is the position list of the source, \<open>references\<close>
  the face references of all face lines in order, each already reduced by one, and
  \<open>corners\<close> the flat per-face corner sequence: the position each reference points to.
\<close>

definition tokenize :: "string \<Rightarrow> string list" where
  "tokenize line = split_SkipEmptyParts CHR '' '' line"

definition isVertexLine :: "string \<Rightarrow> bool" where
  "isVertexLine line = (\<not> startsWith line ''#'' \<and> take 1 (tokenize line) = [''v''])"

definition isFaceLine :: "string \<Rightarrow> bool" where
  "isFaceLine line = (\<not> startsWith line ''#'' \<and> take 1 (tokenize line) = [''f''])"

definition vertexOf :: "'f QStringOps \<Rightarrow> string \<Rightarrow> 'f QVector3D" where
  "vertexOf q line =
     (let tokens = tokenize line
      in \<lparr>xp = toFloat q (tokens ! 1), yp = toFloat q (tokens ! 2), zp = toFloat q (tokens ! 3)\<rparr>)"

definition faceRefs :: "'f QStringOps \<Rightarrow> string \<Rightarrow> 32 word list" where
  "faceRefs q line =
     map (\<lambda>t. toUInt q (hd (split_KeepEmptyParts CHR ''/'' t)) - 1) (tl (tokenize line))"

definition positions :: "'f QStringOps \<Rightarrow> string list \<Rightarrow> 'f QVector3D list" where
  "positions q lines = map (vertexOf q) (filter isVertexLine lines)"

definition references :: "'f QStringOps \<Rightarrow> string list \<Rightarrow> 32 word list" where
  "references q lines = concat (map (faceRefs q) (filter isFaceLine lines))"

definition corners :: "'f QStringOps \<Rightarrow> string list \<Rightarrow> 'f QVector3D list" where
  "corners q lines = map (\<lambda>r. positions q lines ! unat r) (references q lines)"

text \<open>
  A line the read loop gets through: a comment, or a line with a first token that, when
  it is a vertex line, has the three coordinate tokens \<open>parseVertex\<close> reads. A source is
  well-formed when all its lines are such and every face reference lies inside the
  position list; it is valid when, in addition, every face line has three references.
\<close>

definition readable_line :: "string \<Rightarrow> bool" where
  "readable_line line =
     (startsWith line ''#'' \<or>
      (tokenize line \<noteq> [] \<and> (isVertexLine line \<longrightarrow> 4 \<le> length (tokenize line))))"

definition wellformed_source :: "'f QStringOps \<Rightarrow> string list \<Rightarrow> bool" where
  "wellformed_source q lines =
     ((\<forall>l \<in> set lines. readable_line l) \<and>
      (\<forall>r \<in> set (references q lines). unat r < length (positions q lines)))"

definition valid_source :: "'f QStringOps \<Rightarrow> string list \<Rightarrow> bool" where
  "valid_source q lines =
     (wellformed_source q lines \<and>
      (\<forall>l \<in> set lines. isFaceLine l \<longrightarrow> length (faceRefs q l) = 3))"

text \<open>The elements of a list in the order of their first occurrence, each once.\<close>

fun first_occurrences :: "'a list \<Rightarrow> 'a list" where
  "first_occurrences [] = []"
| "first_occurrences (x # xs) = x # removeAll x (first_occurrences xs)"

section \<open>Decimal literals\<close>

text \<open>
  An instance of the two conversions for running the loader on examples: it agrees with
  \<open>QString::toUInt\<close> and \<open>QString::toFloat\<close> on strings of decimal digits (with an optional
  leading minus sign for \<open>toFloat\<close>), and returns \<open>0\<close> on every other string, as the Qt
  functions do when the conversion fails.
\<close>

definition digit_value :: "char \<Rightarrow> nat option" where
  "digit_value c =
     (let n = (of_char c :: nat) in if 48 \<le> n \<and> n \<le> 57 then Some (n - 48) else None)"

fun decimal_from :: "nat \<Rightarrow> string \<Rightarrow> nat option" where
  "decimal_from acc [] = Some acc"
| "decimal_from acc (c # cs) =
     (case digit_value c of None \<Rightarrow> None | Some d \<Rightarrow> decimal_from (10 * acc + d) cs)"

definition decimal :: "string \<Rightarrow> nat option" where
  "decimal s = (if s = [] then None else decimal_from 0 s)"

definition toUInt_decimal :: "string \<Rightarrow> 32 word" where
  "toUInt_decimal s =
     (case decimal s of
        None \<Rightarrow> 0
      | Some n \<Rightarrow> if n < 2 ^ 32 then of_nat n else 0)"

definition toFloat_decimal :: "string \<Rightarrow> rat" where
  "toFloat_decimal s =
     (case s of
        [] \<Rightarrow> 0
      | c # cs \<Rightarrow>
          if c = CHR ''-'' then (case decimal cs of None \<Rightarrow> 0 | Some n \<Rightarrow> - of_nat n)
          else (case decimal s of None \<Rightarrow> 0 | Some n \<Rightarrow> of_nat n))"

definition decimal_ops :: "rat QStringOps" where
  "decimal_ops = \<lparr>toFloat = toFloat_decimal, toUInt = toUInt_decimal\<rparr>"

text \<open>
  Example sources: a unit square as two triangles sharing an edge (with a comment, a
  normal line and \<open>/\<close>-separated extra fields), the same square as one four-sided face, and
  a triangle whose third reference is 99.
\<close>

definition square_source :: "string list" where
  "square_source =
     [''# unit square'', ''v 0 0 0'', ''v 1 0 0'', ''v 1 1 0'', ''v 0 1 0'', ''vn 0 0 1'',
      ''f 1 2 3'', ''f 1/1/1 3/1/1 4/1/1'']"

definition quad_source :: "string list" where
  "quad_source = [''v 0 0 0'', ''v 1 0 0'', ''v 1 1 0'', ''v 0 1 0'', ''f 1 2 3 4'']"

definition dangling_source :: "string list" where
  "dangling_source = [''v 0 0 0'', ''v 1 0 0'', ''v 1 1 0'', ''v 0 1 0'', ''f 1 2 99'']"

text \<open>
  An instance of the matrix operations for running the view on examples: a matrix is
  represented by the operations applied to the identity, in order; floats are rationals.
\<close>

datatype 'f mat_op =
  OpTranslate 'f 'f 'f
  | OpRotate 'f 'f 'f 'f
  | OpScale 'f
  | OpPerspective 'f 'f 'f 'f

definition symbolic_ops :: "(rat, rat mat_op list) QMatrix4x4Ops" where
  "symbolic_ops =
     \<lparr>mat_identity = [],
      mat_translate = (\<lambda>m x y z. m @ [OpTranslate x y z]),
      mat_rotate = (\<lambda>m a x y z. m @ [OpRotate a x y z]),
      mat_scale = (\<lambda>m s. m @ [OpScale s]),
      mat_perspective = (\<lambda>m fov aspect near far. m @ [OpPerspective fov aspect near far]),
      float_of = (\<lambda>r. r),
      float_abs = abs\<rparr>"

definition example_names :: GLnames where
  "example_names =
     \<lparr>gen_buffer = 1, gen_knotVBO = 2, gen_array = 1, gen_knotVAO = 2,
      loc_modelTransform = 0, loc_projectionTransform = 1\<rparr>"

text \<open>A mesh of 1281 triangles: one position and 1281 faces on it.\<close>

definition long_source :: "string list" where
  "long_source = ''v 0 0 0'' # replicate 1281 ''f 1 1 1''"

section \<open>The loader on well-formed sources\<close>

lemma bindE_Inr [simp]: "bindE (Inr x) f = f x"
  by (simp add: bindE_def)

lemma bindE_Inl [simp]: "bindE (Inl e) f = Inl e"
  by (simp add: bindE_def)

lemma elem_at_in [simp]: "i < length xs \<Longrightarrow> elem_at xs i = Inr (xs ! i)"
  by (simp add: elem_at_def)

lemma elem_at_out [simp]: "\<not> i < length xs \<Longrightarrow> elem_at xs i = Inl IndexOutOfRange"
  by (simp add: elem_at_def)

lemma split_KeepEmptyParts_nonempty: "split_KeepEmptyParts sep s \<noteq> []"
  by (induction s) (auto split: list.splits)

lemma elem_at_split_0:
  "elem_at (split_KeepEmptyParts sep s) 0 = Inr (hd (split_KeepEmptyParts sep s))"
  using split_KeepEmptyParts_nonempty [of sep s]
  by (cases "split_KeepEmptyParts sep s") simp_all

lemma parseFace_loop_eq:
  "parseFace_loop q ts m =
     Inr (m\<lparr>indices := indices m @
            map (\<lambda>t. toUInt q (hd (split_KeepEmptyParts CHR ''/'' t)) - 1) ts\<rparr>)"
  by (induction ts arbitrary: m) (simp_all add: elem_at_split_0)

lemma processLine_comment: "startsWith line ''#'' \<Longrightarrow> processLine q line m = Inr m"
  by (simp add: processLine_def)

lemma processLine_vertex:
  assumes "isVertexLine line" and "4 \<le> length (tokenize line)"
  shows "processLine q line m = Inr (m\<lparr>coordsIndexed := coordsIndexed m @ [vertexOf q line]\<rparr>)"
proof -
  obtain ts where ts: "tokenize line = ''v'' # ts"
    using assms by (cases "tokenize line") (auto simp: isVertexLine_def)
  with assms show ?thesis
    by (auto simp: processLine_def isVertexLine_def tokenize_def [symmetric] parseVertex_def
        vertexOf_def elem_at_def bindE_def)
qed

lemma processLine_face:
  assumes "isFaceLine line"
  shows "processLine q line m = Inr (m\<lparr>indices := indices m @ faceRefs q line\<rparr>)"
proof -
  obtain ts where ts: "tokenize line = ''f'' # ts"
    using assms by (cases "tokenize line") (auto simp: isFaceLine_def)
  with assms show ?thesis
    by (simp add: processLine_def isFaceLine_def tokenize_def [symmetric] parseFace_def
        parseFace_loop_eq faceRefs_def)
qed

lemma processLine_other:
  assumes "tokenize line = t0 # ts" and "t0 \<noteq> ''v''" and "t0 \<noteq> ''f''"
  shows "processLine q line m = Inr m"
  using assms by (simp add: processLine_def tokenize_def [symmetric])

lemma processLine_readable:
  assumes "readable_line line"
  shows "processLine q line m =
     Inr (m\<lparr>coordsIndexed := coordsIndexed m @ positions q [line],
            indices := indices m @ references q [line]\<rparr>)"
proof (cases "startsWith line ''#''")
  case True
  then show ?thesis
    by (simp add: processLine_comment positions_def references_def isVertexLine_def isFaceLine_def)
next
  case False
  with assms obtain t0 ts where ts: "tokenize line = t0 # ts"
    by (cases "tokenize line") (auto simp: readable_line_def)
  consider (v) "t0 = ''v''" | (f) "t0 = ''f''" | (o) "t0 \<noteq> ''v''" "t0 \<noteq> ''f''"
    by blast
  then show ?thesis
  proof cases
    case v
    with ts False have iv: "isVertexLine line" and nf: "\<not> isFaceLine line"
      by (simp_all add: isVertexLine_def isFaceLine_def)
    with assms False have "4 \<le> length (tokenize line)"
      by (simp add: readable_line_def)
    with iv nf show ?thesis
      by (simp add: processLine_vertex positions_def references_def)
  next
    case f
    with ts False have nv: "\<not> isVertexLine line" and isf: "isFaceLine line"
      by (simp_all add: isVertexLine_def isFaceLine_def)
    then show ?thesis
      by (simp add: processLine_face positions_def references_def)
  next
    case o
    with ts False have nv: "\<not> isVertexLine line" and nf: "\<not> isFaceLine line"
      by (simp_all add: isVertexLine_def isFaceLine_def)
    with o ts show ?thesis
      by (simp add: processLine_other positions_def references_def)
  qed
qed

lemma positions_Cons: "positions q (l # ls) = positions q [l] @ positions q ls"
  by (simp add: positions_def)

lemma references_Cons: "references q (l # ls) = references q [l] @ references q ls"
  by (simp add: references_def)

lemma readLines_readable:
  assumes "\<forall>l \<in> set lines. readable_line l"
  shows "readLines q lines m =
     Inr (m\<lparr>coordsIndexed := coordsIndexed m @ positions q lines,
            indices := indices m @ references q lines\<rparr>)"
  using assms
proof (induction lines arbitrary: m)
  case Nil
  then show ?case by (simp add: positions_def references_def)
next
  case (Cons l ls)
  then show ?case
    by (simp add: processLine_readable positions_Cons [of q l ls] references_Cons [of q l ls])
qed


lemma unpack_loop_ok:
  assumes "\<forall>i \<in> set is. unat i < length cs"
  shows "unpack_loop cs is acc = Inr (acc @ map (\<lambda>i. cs ! unat i) is)"
  using assms by (induction "is" arbitrary: acc) simp_all

lemma unpack_loop_bad:
  assumes "\<exists>i \<in> set is. \<not> unat i < length cs"
  shows "unpack_loop cs is acc = Inl IndexOutOfRange"
  using assms
proof (induction "is" arbitrary: acc)
  case Nil
  then show ?case by simp
next
  case (Cons i "is")
  show ?case
  proof (cases "unat i < length cs")
    case True
    with Cons.prems have "\<exists>i \<in> set is. \<not> unat i < length cs" by simp
    with True show ?thesis by (simp add: Cons.IH)
  next
    case False
    then show ?thesis by simp
  qed
qed

lemma indexOf_from_append:
  "indexOf_from (xs @ ys) v k =
     (if v \<in> set xs then indexOf_from xs v k else indexOf_from ys v (k + int (length xs)))"
  by (induction xs arbitrary: k) (auto simp: algebra_simps)

lemma indexOf_from_found:
  "v \<in> set xs \<Longrightarrow> \<exists>j < length xs. indexOf_from xs v k = k + int j \<and> xs ! j = v"
proof (induction xs arbitrary: k)
  case Nil
  then show ?case by simp
next
  case (Cons x xs)
  show ?case
  proof (cases "x = v")
    case True
    then show ?thesis by (intro exI [of _ 0]) simp
  next
    case False
    with Cons.prems have "v \<in> set xs" by simp
    from Cons.IH [OF this, of "k + 1"] obtain j where
      "j < length xs" "indexOf_from xs v (k + 1) = k + 1 + int j" "xs ! j = v" by blast
    with False show ?thesis by (intro exI [of _ "Suc j"]) simp
  qed
qed

lemma indexOf_found:
  "v \<in> set xs \<Longrightarrow> \<exists>j < length xs. indexOf xs v = int j \<and> xs ! j = v"
  using indexOf_from_found [of v xs 0] by (simp add: indexOf_def)

lemma indexOf_prefix: "v \<in> set xs \<Longrightarrow> indexOf (xs @ ys) v = indexOf xs v"
  by (simp add: indexOf_def indexOf_from_append)

lemma indexOf_fresh: "v \<notin> set xs \<Longrightarrow> indexOf (xs @ v # ys) v = int (length xs)"
  by (simp add: indexOf_def indexOf_from_append)

lemma filter_removeAll_absorb: "\<not> P v \<Longrightarrow> filter P (removeAll v ys) = filter P ys"
  by (induction ys) auto

lemma filter_removeAll_insert:
  "filter (\<lambda>x. x \<notin> set (vs @ [v])) ys = filter (\<lambda>x. x \<notin> set vs) (removeAll v ys)"
  by (induction ys) auto

lemma align_loop_ok:
  assumes "\<forall>i \<in> set is. unat i < length cs"
  shows "align_loop cs is verts ind (of_nat (length verts)) =
     Inr (verts @ filter (\<lambda>x. x \<notin> set verts) (first_occurrences (map (\<lambda>i. cs ! unat i) is)),
          ind @ map (\<lambda>i. word_of_int (indexOf
              (verts @ filter (\<lambda>x. x \<notin> set verts) (first_occurrences (map (\<lambda>i. cs ! unat i) is)))
              (cs ! unat i))) is)"
  using assms
proof (induction "is" arbitrary: verts ind)
  case Nil
  then show ?case by simp
next
  case (Cons i "is")
  let ?v = "cs ! unat i"
  let ?rest = "first_occurrences (map (\<lambda>i. cs ! unat i) is)"
  from Cons.prems have i: "unat i < length cs" and "is": "\<forall>i \<in> set is. unat i < length cs"
    by simp_all
  show ?case
  proof (cases "?v \<in> set verts")
    case True
    have V: "verts @ filter (\<lambda>x. x \<notin> set verts) (first_occurrences (map (\<lambda>i. cs ! unat i) (i # is)))
        = verts @ filter (\<lambda>x. x \<notin> set verts) ?rest"
      using True by (simp add: filter_removeAll_absorb)
    show ?thesis
      unfolding V using True i Cons.IH [OF "is", of verts]
      by (simp add: contains_def indexOf_prefix)
  next
    case False
    define W where "W = filter (\<lambda>x. x \<notin> set (verts @ [?v])) ?rest"
    have V: "verts @ filter (\<lambda>x. x \<notin> set verts) (first_occurrences (map (\<lambda>i. cs ! unat i) (i # is)))
        = (verts @ [?v]) @ W"
      unfolding W_def using False filter_removeAll_insert [of verts ?v ?rest] by simp
    have idx: "indexOf (verts @ ?v # W) ?v = int (length verts)"
      using False by (rule indexOf_fresh)
    have step: "align_loop cs (i # is) verts ind (of_nat (length verts)) =
        align_loop cs is (verts @ [?v]) (ind @ [of_nat (length verts)])
          (of_nat (length (verts @ [?v])))"
      using False i by (simp add: contains_def add.commute)
    have IH: "align_loop cs is (verts @ [?v]) (ind @ [of_nat (length verts)])
          (of_nat (length (verts @ [?v]))) =
        Inr ((verts @ [?v]) @ W,
             (ind @ [of_nat (length verts)]) @
             map (\<lambda>i. word_of_int (indexOf ((verts @ [?v]) @ W) (cs ! unat i))) is)"
      unfolding W_def by (rule Cons.IH [OF "is"])
    show ?thesis
      unfolding V step IH by (simp add: idx)
  qed
qed

lemma distinct_first_occurrences: "distinct (first_occurrences xs)"
  by (induction xs) (auto simp: distinct_removeAll)

lemma set_first_occurrences: "set (first_occurrences xs) = set xs"
  by (induction xs) auto

lemma remdups_snoc: "remdups (ys @ [x]) = removeAll x (remdups ys) @ [x]"
  by (induction ys) auto

lemma first_occurrences_remdups: "first_occurrences xs = rev (remdups (rev xs))"
  by (induction xs) (simp_all add: remdups_snoc removeAll_filter_not_eq rev_filter)

lemma length_first_occurrences_word:
  fixes rs :: "32 word list"
  shows "length (first_occurrences (map f rs)) \<le> 2 ^ 32"
proof -
  have "length (first_occurrences (map f rs)) = card (set (first_occurrences (map f rs)))"
    by (simp add: distinct_card distinct_first_occurrences)
  also have "\<dots> = card (f ` set rs)"
    by (simp add: set_first_occurrences)
  also have "\<dots> \<le> card (set rs)"
    by (rule card_image_le) simp
  also have "\<dots> \<le> card (UNIV :: 32 word set)"
    by (rule card_mono) simp_all
  also have "\<dots> = 2 ^ LENGTH(32)"
    by (rule card_word)
  also have "\<dots> = (2::nat) ^ 32"
    by simp
  finally show ?thesis .
qed

lemma index_entry:
  fixes rs :: "32 word list"
  assumes "v \<in> set (map f rs)"
  defines "V \<equiv> first_occurrences (map f rs)"
  shows "unat (word_of_int (indexOf V v) :: 32 word) < length V \<and>
         V ! unat (word_of_int (indexOf V v) :: 32 word) = v"
proof -
  from assms have "v \<in> set V"
    by (simp add: set_first_occurrences)
  from indexOf_found [OF this] obtain j where
    j: "j < length V" "indexOf V v = int j" "V ! j = v"
    by blast
  have "length V \<le> 2 ^ 32"
    unfolding V_def by (rule length_first_occurrences_word)
  with j(1) have "j < 2 ^ 32" by (rule less_le_trans)
  then have "j < 2 ^ LENGTH(32)" by simp
  then have "unat (of_nat j :: 32 word) = j"
    by (simp only: unat_of_nat mod_less)
  then have "unat (word_of_int (int j) :: 32 word) = j"
    by simp
  with j show ?thesis by simp
qed

lemma Model_ctor_wellformed:
  assumes "wellformed_source q lines"
  shows "Model_ctor q (Some lines) =
     Inr \<lparr>coordsIndexed = first_occurrences (corners q lines),
          indices = map (\<lambda>v. word_of_int (indexOf (first_occurrences (corners q lines)) v))
                      (corners q lines),
          coords = corners q lines\<rparr>"
proof -
  from assms have r: "\<forall>l \<in> set lines. readable_line l"
    and b: "\<forall>i \<in> set (references q lines). unat i < length (positions q lines)"
    by (simp_all add: wellformed_source_def)
  have 1: "readLines q lines empty_Model =
      Inr \<lparr>coordsIndexed = positions q lines, indices = references q lines, coords = []\<rparr>"
    by (simp add: readLines_readable [OF r] empty_Model_def)
  have 2: "unpackIndexes \<lparr>coordsIndexed = positions q lines, indices = references q lines,
        coords = []\<rparr> =
      Inr \<lparr>coordsIndexed = positions q lines, indices = references q lines,
           coords = corners q lines\<rparr>"
    by (simp add: unpackIndexes_def unpack_loop_ok [OF b] corners_def)
  have 3: "align_loop (positions q lines) (references q lines) [] [] 0 =
      Inr (first_occurrences (corners q lines),
           map (\<lambda>i. word_of_int (indexOf (first_occurrences (corners q lines))
                  (positions q lines ! unat i))) (references q lines))"
    using align_loop_ok [OF b, of "[]" "[]"] by (simp add: corners_def)
  show ?thesis
    by (simp add: Model_ctor_def 1 2 alignData_def 3 corners_def o_def)
qed

lemma indexOf_from_shift:
  "v \<in> set xs \<Longrightarrow> indexOf_from xs v (k + d) = indexOf_from xs v k + d"
proof (induction xs arbitrary: k)
  case Nil
  then show ?case by simp
next
  case (Cons x xs)
  show ?case
  proof (cases "x = v")
    case True
    then show ?thesis by simp
  next
    case False
    with Cons.prems have "v \<in> set xs" by simp
    have e: "k + d + 1 = k + 1 + d" by simp
    from Cons.IH [OF \<open>v \<in> set xs\<close>, of "k + 1"]
    have "indexOf_from xs v (k + d + 1) = indexOf_from xs v (k + 1) + d"
      unfolding e .
    with False show ?thesis by simp
  qed
qed

lemma indexOf_Cons_same: "indexOf (x # ys) x = 0"
  by (simp add: indexOf_def)

lemma indexOf_Cons_other: "v \<noteq> x \<Longrightarrow> v \<in> set ys \<Longrightarrow> indexOf (x # ys) v = indexOf ys v + 1"
  using indexOf_from_shift [of v ys 0 1] by (simp add: indexOf_def)

lemma indexOf_nonneg: "v \<in> set xs \<Longrightarrow> 0 \<le> indexOf xs v"
  using indexOf_found [of v xs] by auto

lemma first_occurrences_sorted:
  "sorted_wrt (\<lambda>u v. indexOf xs u < indexOf xs v) (first_occurrences xs)"
proof (induction xs)
  case Nil
  then show ?case by simp
next
  case (Cons x ys)
  let ?R = "\<lambda>u v. indexOf ys u < indexOf ys v"
  let ?R' = "\<lambda>u v. indexOf (x # ys) u < indexOf (x # ys) v"
  let ?zs = "filter ((\<noteq>) x) (first_occurrences ys)"
  have zs: "\<And>v. v \<in> set ?zs \<Longrightarrow> v \<noteq> x \<and> v \<in> set ys"
    by (auto simp: set_first_occurrences)
  have "sorted_wrt ?R ?zs"
    using Cons.IH by (rule sorted_wrt_filter)
  then have tail: "sorted_wrt ?R' ?zs"
  proof (rule sorted_wrt_mono_rel [rotated])
    fix u v
    assume u: "u \<in> set ?zs" and v: "v \<in> set ?zs" and lt: "indexOf ys u < indexOf ys v"
    from zs [OF u] zs [OF v] lt show "indexOf (x # ys) u < indexOf (x # ys) v"
      by (simp add: indexOf_Cons_other)
  qed
  have head: "\<forall>v \<in> set ?zs. indexOf (x # ys) x < indexOf (x # ys) v"
  proof
    fix v
    assume "v \<in> set ?zs"
    from zs [OF this] have "v \<noteq> x" "v \<in> set ys" by simp_all
    then show "indexOf (x # ys) x < indexOf (x # ys) v"
      using indexOf_nonneg [of v ys] by (simp add: indexOf_Cons_same indexOf_Cons_other)
  qed
  from head tail show ?case
    by (simp only: first_occurrences.simps removeAll_filter_not_eq sorted_wrt.simps simp_thms)
qed

lemma readLines_append:
  "readLines q (xs @ ys) m = bindE (readLines q xs m) (readLines q ys)"
proof (induction xs arbitrary: m)
  case Nil
  then show ?case by simp
next
  case (Cons l ls)
  then show ?case by (cases "processLine q l m") simp_all
qed

lemma readLines_skip:
  assumes "\<And>m. processLine q line m = Inr m"
  shows "readLines q (pre @ line # post) m = readLines q (pre @ post) m"
proof -
  have "readLines q (line # post) = readLines q post"
    by (rule ext) (simp add: assms)
  then show ?thesis
    by (simp only: readLines_append)
qed

lemma Model_ctor_skip:
  assumes "\<And>m. processLine q line (m :: 'f Model) = Inr m"
  shows "Model_ctor q (Some (pre @ line # post)) = Model_ctor q (Some (pre @ post))"
  by (simp add: Model_ctor_def readLines_skip [of q, OF assms])

lemmas loader_eval =
  Model_ctor_def processLine_def startsWith_def split_SkipEmptyParts_def parseVertex_def
  parseFace_def unpackIndexes_def alignData_def contains_def indexOf_def empty_Model_def
  elem_at_def bindE_def

lemmas source_eval =
  wellformed_source_def valid_source_def readable_line_def tokenize_def isVertexLine_def
  isFaceLine_def faceRefs_def vertexOf_def positions_def references_def corners_def
  startsWith_def split_SkipEmptyParts_def

lemmas decimal_eval =
  decimal_ops_def toUInt_decimal_def toFloat_decimal_def decimal_def digit_value_def

lemma wellformed_square: "wellformed_source decimal_ops square_source"
  by (simp add: source_eval decimal_eval square_source_def)

lemma valid_square: "valid_source decimal_ops square_source"
  by (simp add: source_eval decimal_eval square_source_def)

lemma wellformed_quad: "wellformed_source decimal_ops quad_source"
  by (simp add: source_eval decimal_eval quad_source_def)

lemma corner_index:
  assumes "i < length (corners q lines)"
  defines "V \<equiv> first_occurrences (corners q lines)"
  defines "w \<equiv> (word_of_int (indexOf V (corners q lines ! i)) :: 32 word)"
  shows "unat w < length V \<and> V ! unat w = corners q lines ! i"
proof -
  have "corners q lines ! i \<in> set (map (\<lambda>r. positions q lines ! unat r) (references q lines))"
    using assms(1) by (simp add: corners_def)
  from index_entry [OF this] show ?thesis
    by (simp add: V_def w_def corners_def)
qed

section \<open>Claims about the loader\<close>

text \<open>
  C1. For every well-formed mesh source (in particular every valid one) the constructor
  returns a model whose unique coordinate list \<open>getCoords\<close> has no two equal positions,
  holds exactly the positions of the flat corner sequence, and lists them by increasing
  index of first occurrence in that sequence. The index stored for a corner is the index
  of its position in the unique list, so two corners have the same index exactly when
  their positions are equal: an already-seen position reuses its index, and positions
  that differ, by however little, keep two entries. Equality of positions is equality of
  the three components, with no tolerance.
\<close>

theorem getCoords_unique_in_first_seen_order:
  assumes "wellformed_source q lines"
  shows "\<exists>m. Model_ctor q (Some lines) = Inr m \<and>
     getMeshCoords m = corners q lines \<and>
     distinct (getCoords m) \<and>
     set (getCoords m) = set (getMeshCoords m) \<and>
     sorted_wrt (\<lambda>u v. indexOf (getMeshCoords m) u < indexOf (getMeshCoords m) v) (getCoords m) \<and>
     length (getTriangleIndices m) = length (getMeshCoords m) \<and>
     (\<forall>i < length (getMeshCoords m).
        getTriangleIndices m ! i = word_of_int (indexOf (getCoords m) (getMeshCoords m ! i))) \<and>
     (\<forall>i < length (getMeshCoords m). \<forall>j < length (getMeshCoords m).
        (getTriangleIndices m ! i = getTriangleIndices m ! j) =
        (getMeshCoords m ! i = getMeshCoords m ! j))"
proof -
  let ?C = "corners q lines"
  let ?V = "first_occurrences ?C"
  let ?I = "map (\<lambda>v. word_of_int (indexOf ?V v) :: 32 word) ?C"
  let ?m = "\<lparr>coordsIndexed = ?V, indices = ?I, coords = ?C\<rparr>"
  have run: "Model_ctor q (Some lines) = Inr ?m"
    using assms by (rule Model_ctor_wellformed)
  have inj: "(?I ! i = ?I ! j) = (?C ! i = ?C ! j)" if "i < length ?C" "j < length ?C" for i j
  proof
    assume "?I ! i = ?I ! j"
    with that have "word_of_int (indexOf ?V (?C ! i)) = (word_of_int (indexOf ?V (?C ! j)) :: 32 word)"
      by simp
    with corner_index [OF that(1)] corner_index [OF that(2)] show "?C ! i = ?C ! j"
      by metis
  next
    assume "?C ! i = ?C ! j"
    with that show "?I ! i = ?I ! j" by simp
  qed
  have "getMeshCoords ?m = ?C" "distinct (getCoords ?m)" "set (getCoords ?m) = set (getMeshCoords ?m)"
    "sorted_wrt (\<lambda>u v. indexOf (getMeshCoords ?m) u < indexOf (getMeshCoords ?m) v) (getCoords ?m)"
    "length (getTriangleIndices ?m) = length (getMeshCoords ?m)"
    by (simp_all add: getMeshCoords_def getCoords_def getTriangleIndices_def
        distinct_first_occurrences set_first_occurrences first_occurrences_sorted)
  moreover have "\<forall>i < length (getMeshCoords ?m).
        getTriangleIndices ?m ! i = word_of_int (indexOf (getCoords ?m) (getMeshCoords ?m ! i))"
    by (simp add: getMeshCoords_def getCoords_def getTriangleIndices_def)
  moreover have "\<forall>i < length (getMeshCoords ?m). \<forall>j < length (getMeshCoords ?m).
        (getTriangleIndices ?m ! i = getTriangleIndices ?m ! j) =
        (getMeshCoords ?m ! i = getMeshCoords ?m ! j)"
    using inj by (simp add: getMeshCoords_def getTriangleIndices_def)
  ultimately show ?thesis
    using run by blast
qed

theorem getCoords_unique_in_first_seen_order_witness:
  "wellformed_source decimal_ops square_source \<and>
   (\<exists>m. Model_ctor decimal_ops (Some square_source) = Inr m \<and>
      distinct (getCoords m) \<and> set (getCoords m) = set (getMeshCoords m) \<and>
      length (getTriangleIndices m) = length (getMeshCoords m))"
proof -
  from getCoords_unique_in_first_seen_order [OF wellformed_square]
  show ?thesis using wellformed_square by blast
qed

lemma wellformed_if_valid: "valid_source q lines \<Longrightarrow> wellformed_source q lines"
  by (simp add: valid_source_def)

lemma length_references_triangles:
  assumes "\<forall>l \<in> set lines. isFaceLine l \<longrightarrow> length (faceRefs q l) = 3"
  shows "length (references q lines) = 3 * length (filter isFaceLine lines)"
  using assms by (induction lines) (simp_all add: references_def)

lemma indices_in_range:
  assumes "w \<in> set (map (\<lambda>v. word_of_int (indexOf (first_occurrences (corners q lines)) v) :: 32 word)
              (corners q lines))"
  shows "unat w < length (first_occurrences (corners q lines))"
proof -
  from assms obtain i where "i < length (corners q lines)"
    and "w = word_of_int (indexOf (first_occurrences (corners q lines)) (corners q lines ! i))"
    by (auto simp: in_set_conv_nth)
  with corner_index [of i q lines] show ?thesis by simp
qed

text \<open>
  C2. For every valid mesh source (every line parses, every face line has three
  references, every reference lies inside the position list) with \<open>F\<close> face lines, the
  constructor returns a model with \<open>3 * F\<close> triangle indices, \<open>getNumTriangles\<close> is \<open>F\<close>,
  and every triangle index is below the length of the unique coordinate list.
\<close>

theorem triangle_counts_and_index_range:
  assumes "valid_source q lines"
  shows "\<exists>m. Model_ctor q (Some lines) = Inr m \<and>
     length (getTriangleIndices m) = 3 * length (filter isFaceLine lines) \<and>
     getNumTriangles m = int (length (filter isFaceLine lines)) \<and>
     (\<forall>w \<in> set (getTriangleIndices m). unat w < length (getCoords m))"
proof -
  let ?C = "corners q lines"
  let ?V = "first_occurrences ?C"
  let ?I = "map (\<lambda>v. word_of_int (indexOf ?V v) :: 32 word) ?C"
  let ?m = "\<lparr>coordsIndexed = ?V, indices = ?I, coords = ?C\<rparr>"
  from assms have wf: "wellformed_source q lines"
    and tri: "\<forall>l \<in> set lines. isFaceLine l \<longrightarrow> length (faceRefs q l) = 3"
    by (simp_all add: valid_source_def)
  have run: "Model_ctor q (Some lines) = Inr ?m"
    using wf by (rule Model_ctor_wellformed)
  have len: "length ?C = 3 * length (filter isFaceLine lines)"
    using length_references_triangles [OF tri] by (simp add: corners_def)
  have "length (getTriangleIndices ?m) = 3 * length (filter isFaceLine lines)"
    using len by (simp add: getTriangleIndices_def)
  moreover have "getNumTriangles ?m = int (length (filter isFaceLine lines))"
    using len by (simp add: getNumTriangles_def)
  moreover have "\<forall>w \<in> set (getTriangleIndices ?m). unat w < length (getCoords ?m)"
    using indices_in_range [of _ q lines] by (simp add: getTriangleIndices_def getCoords_def)
  ultimately show ?thesis
    using run by blast
qed

theorem triangle_counts_and_index_range_witness:
  "valid_source decimal_ops square_source \<and>
   (\<exists>m. Model_ctor decimal_ops (Some square_source) = Inr m \<and>
      length (getTriangleIndices m) = 6 \<and> getNumTriangles m = 2 \<and>
      (\<forall>w \<in> set (getTriangleIndices m). unat w < length (getCoords m)))"
proof -
  have "length (filter isFaceLine square_source) = 2"
    by (simp add: source_eval square_source_def)
  with triangle_counts_and_index_range [OF valid_square]
  show ?thesis using valid_square by simp
qed

text \<open>
  C3. The flat vertex array is the re-expansion of the indexed representation: for every
  well-formed source (in particular every valid one) the returned model has as many flat
  coordinates as triangle indices, and the \<open>i\<close>-th flat coordinate is the unique coordinate
  at the \<open>i\<close>-th triangle index, although \<open>unpackIndexes\<close> runs before \<open>alignData\<close>.
\<close>

theorem flat_array_is_expansion:
  assumes "wellformed_source q lines"
  shows "\<exists>m. Model_ctor q (Some lines) = Inr m \<and>
     length (getMeshCoords m) = length (getTriangleIndices m) \<and>
     (\<forall>i < length (getTriangleIndices m).
        unat (getTriangleIndices m ! i) < length (getCoords m) \<and>
        getMeshCoords m ! i = getCoords m ! unat (getTriangleIndices m ! i))"
proof -
  let ?C = "corners q lines"
  let ?V = "first_occurrences ?C"
  let ?I = "map (\<lambda>v. word_of_int (indexOf ?V v) :: 32 word) ?C"
  let ?m = "\<lparr>coordsIndexed = ?V, indices = ?I, coords = ?C\<rparr>"
  have run: "Model_ctor q (Some lines) = Inr ?m"
    using assms by (rule Model_ctor_wellformed)
  have "length (getMeshCoords ?m) = length (getTriangleIndices ?m)"
    by (simp add: getMeshCoords_def getTriangleIndices_def)
  moreover have "\<forall>i < length (getTriangleIndices ?m).
        unat (getTriangleIndices ?m ! i) < length (getCoords ?m) \<and>
        getMeshCoords ?m ! i = getCoords ?m ! unat (getTriangleIndices ?m ! i)"
    using corner_index [of _ q lines]
    by (simp add: getMeshCoords_def getTriangleIndices_def getCoords_def)
  ultimately show ?thesis
    using run by blast
qed

theorem flat_array_is_expansion_witness:
  "wellformed_source decimal_ops square_source \<and>
   (\<exists>m. Model_ctor decimal_ops (Some square_source) = Inr m \<and>
      length (getMeshCoords m) = length (getTriangleIndices m) \<and>
      (\<forall>i < length (getTriangleIndices m).
         getMeshCoords m ! i = getCoords m ! unat (getTriangleIndices m ! i)))"
proof -
  from flat_array_is_expansion [OF wellformed_square]
  show ?thesis using wellformed_square by blast
qed

lemma dangling_reference_out_of_range:
  assumes "\<forall>l \<in> set lines. readable_line l"
    and "\<exists>r \<in> set (references q lines). \<not> unat r < length (positions q lines)"
  shows "Model_ctor q (Some lines) = Inl IndexOutOfRange"
proof -
  have "readLines q lines empty_Model =
      Inr \<lparr>coordsIndexed = positions q lines, indices = references q lines, coords = []\<rparr>"
    by (simp add: readLines_readable [OF assms(1)] empty_Model_def)
  then show ?thesis
    by (simp add: Model_ctor_def unpackIndexes_def unpack_loop_bad [OF assms(2)])
qed

lemma dangling_source_readable: "\<forall>l \<in> set dangling_source. readable_line l"
  by (simp add: source_eval dangling_source_def)

lemma dangling_source_references: "references decimal_ops dangling_source = [0, 1, 98]"
  by (simp add: source_eval decimal_eval dangling_source_def)

text \<open>
  C4, as the code has it. The loader does not validate face references and raises no
  \<open>MalformedInputError\<close>: for every source whose lines parse, the read loop stores every
  face reference, reduced by one, whatever the size of the position list, and the
  constructor does not fail with \<open>MalformedInputError\<close>.
\<close>

theorem face_references_are_not_validated:
  assumes "\<forall>l \<in> set lines. readable_line l"
  shows "readLines q lines empty_Model =
       Inr \<lparr>coordsIndexed = positions q lines, indices = references q lines, coords = []\<rparr> \<and>
     Model_ctor q (Some lines) \<noteq> Inl MalformedInputError"
proof -
  have stored: "readLines q lines empty_Model =
      Inr \<lparr>coordsIndexed = positions q lines, indices = references q lines, coords = []\<rparr>"
    by (simp add: readLines_readable [OF assms] empty_Model_def)
  have "Model_ctor q (Some lines) \<noteq> Inl MalformedInputError"
  proof (cases "\<forall>r \<in> set (references q lines). unat r < length (positions q lines)")
    case True
    with assms have "wellformed_source q lines"
      by (simp add: wellformed_source_def)
    from Model_ctor_wellformed [OF this] show ?thesis by simp
  next
    case False
    then have "\<exists>r \<in> set (references q lines). \<not> unat r < length (positions q lines)"
      by simp
    from dangling_reference_out_of_range [OF assms this] show ?thesis by simp
  qed
  with stored show ?thesis by simp
qed

theorem face_references_are_not_validated_witness:
  "list_all readable_line dangling_source \<and>
   length (positions decimal_ops dangling_source) = 4 \<and>
   readLines decimal_ops dangling_source empty_Model =
     Inr \<lparr>coordsIndexed = positions decimal_ops dangling_source, indices = [0, 1, 98],
          coords = []\<rparr> \<and>
   Model_ctor decimal_ops (Some dangling_source) \<noteq> Inl MalformedInputError"
proof -
  have "length (positions decimal_ops dangling_source) = 4"
    by (simp add: source_eval dangling_source_def)
  with face_references_are_not_validated [OF dangling_source_readable, of decimal_ops]
    dangling_source_readable
  show ?thesis
    by (simp add: list_all_iff dangling_source_references)
qed

text \<open>
  C4 as stated fails: for four positions and a face referencing position 99 the
  constructor does not fail with \<open>MalformedInputError\<close>.
\<close>

theorem dangling_reference_no_MalformedInputError:
  "Model_ctor decimal_ops (Some dangling_source) \<noteq> Inl MalformedInputError"
  by (simp add: loader_eval decimal_eval dangling_source_def)

text \<open>
  C7, as the code has it. A face line is accepted whatever its number of references, and
  no \<open>MalformedInputError\<close> is raised: for every well-formed source the constructor returns
  a model in which a face line with \<open>k\<close> references contributes \<open>k\<close> corners and \<open>k\<close> indices
  (no triangulation), so the number of indices is the total number of references and
  \<open>getNumTriangles\<close> is that total divided by three, rounded down.
\<close>

theorem faces_of_any_arity_are_accepted:
  assumes "wellformed_source q lines"
  shows "\<exists>m. Model_ctor q (Some lines) = Inr m \<and>
     getMeshCoords m = corners q lines \<and>
     length (getTriangleIndices m) = sum_list (map (\<lambda>l. length (faceRefs q l)) (filter isFaceLine lines)) \<and>
     getNumTriangles m =
       int (sum_list (map (\<lambda>l. length (faceRefs q l)) (filter isFaceLine lines))) div 3"
proof -
  let ?C = "corners q lines"
  let ?V = "first_occurrences ?C"
  let ?I = "map (\<lambda>v. word_of_int (indexOf ?V v) :: 32 word) ?C"
  let ?m = "\<lparr>coordsIndexed = ?V, indices = ?I, coords = ?C\<rparr>"
  have run: "Model_ctor q (Some lines) = Inr ?m"
    using assms by (rule Model_ctor_wellformed)
  have len: "length ?C = sum_list (map (\<lambda>l. length (faceRefs q l)) (filter isFaceLine lines))"
    by (simp add: corners_def references_def length_concat o_def)
  have "getMeshCoords ?m = ?C"
    by (simp add: getMeshCoords_def)
  moreover have "length (getTriangleIndices ?m) =
      sum_list (map (\<lambda>l. length (faceRefs q l)) (filter isFaceLine lines))"
    using len by (simp add: getTriangleIndices_def)
  moreover have "getNumTriangles ?m =
      int (sum_list (map (\<lambda>l. length (faceRefs q l)) (filter isFaceLine lines))) div 3"
    using len by (simp add: getNumTriangles_def)
  ultimately show ?thesis
    using run by blast
qed

theorem faces_of_any_arity_are_accepted_witness:
  "wellformed_source decimal_ops quad_source \<and>
   (\<exists>m. Model_ctor decimal_ops (Some quad_source) = Inr m \<and>
      length (getTriangleIndices m) = 4 \<and> getNumTriangles m = 1)"
proof -
  have "sum_list (map (\<lambda>l. length (faceRefs decimal_ops l)) (filter isFaceLine quad_source)) = 4"
    by (simp add: source_eval quad_source_def)
  with faces_of_any_arity_are_accepted [OF wellformed_quad]
  have "\<exists>m. Model_ctor decimal_ops (Some quad_source) = Inr m \<and>
      length (getTriangleIndices m) = 4 \<and> getNumTriangles m = 1"
    by auto
  with wellformed_quad show ?thesis by blast
qed

text \<open>
  C7 as stated fails: a source whose only face has four references is loaded; construction
  returns a model with four indices.
\<close>

theorem quad_face_is_loaded:
  "Model_ctor decimal_ops (Some quad_source) =
     Inr \<lparr>coordsIndexed = [\<lparr>xp = 0, yp = 0, zp = 0\<rparr>, \<lparr>xp = 1, yp = 0, zp = 0\<rparr>,
            \<lparr>xp = 1, yp = 1, zp = 0\<rparr>, \<lparr>xp = 0, yp = 1, zp = 0\<rparr>],
          indices = [0, 1, 2, 3],
          coords = [\<lparr>xp = 0, yp = 0, zp = 0\<rparr>, \<lparr>xp = 1, yp = 0, zp = 0\<rparr>,
            \<lparr>xp = 1, yp = 1, zp = 0\<rparr>, \<lparr>xp = 0, yp = 1, zp = 0\<rparr>]\<rparr>"
  by (simp add: loader_eval decimal_eval quad_source_def)

text \<open>
  C8, what the code does on a blank line. A line with no token (empty, or only spaces) is
  not skipped: \<open>tokens[0]\<close> is read on the empty token list, an out-of-range access, and
  the constructor returns no model for a source that contains such a line. (Comment lines
  are skipped: lemma \<open>processLine_comment\<close>.)
\<close>

theorem blank_line_reads_missing_token:
  "processLine q [] m = Inl IndexOutOfRange \<and>
   processLine q ''  '' m = Inl IndexOutOfRange \<and>
   Model_ctor q (Some [''v 0 0 0'', [], ''f 1 1 1'']) = Inl IndexOutOfRange"
  by (simp add: loader_eval)

text \<open>
  C10. A line that has a first token other than \<open>v\<close> and \<open>f\<close> (such as \<open>vn\<close> or \<open>vt\<close>) leaves
  the model unchanged, and the constructor returns the same result as for the source
  without that line.
\<close>

theorem other_tags_are_ignored:
  assumes "tokenize line = t0 # ts" and "t0 \<noteq> ''v''" and "t0 \<noteq> ''f''"
  shows "processLine q line m = Inr m \<and>
     Model_ctor q (Some (pre @ line # post)) = Model_ctor q (Some (pre @ post))"
proof -
  have skip: "processLine q line m' = Inr m'" for m' :: "'a Model"
    using assms by (rule processLine_other)
  then show ?thesis
    by (simp add: Model_ctor_skip)
qed

theorem other_tags_are_ignored_witness:
  "tokenize ''vn 0 0 1'' = ''vn'' # [''0'', ''0'', ''1''] \<and> ''vn'' \<noteq> ''v'' \<and> ''vn'' \<noteq> ''f'' \<and>
   processLine decimal_ops ''vn 0 0 1'' empty_Model = Inr empty_Model \<and>
   Model_ctor decimal_ops (Some ([''v 0 0 0''] @ ''vn 0 0 1'' # [''f 1 1 1''])) =
   Model_ctor decimal_ops (Some ([''v 0 0 0''] @ [''f 1 1 1'']))"
proof -
  have t: "tokenize ''vn 0 0 1'' = ''vn'' # [''0'', ''0'', ''1'']"
    by (simp add: tokenize_def split_SkipEmptyParts_def)
  have v: "''vn'' \<noteq> ''v''" and f: "''vn'' \<noteq> ''f''"
    by simp_all
  from other_tags_are_ignored [OF t v f, of decimal_ops empty_Model "[''v 0 0 0'']" "[''f 1 1 1'']"]
  show ?thesis using t by simp
qed

section \<open>Claims about the view\<close>

text \<open>
  C5. After \<open>setRotation(x, y, z)\<close> and after \<open>setScale(s)\<close> the model matrix of each of the
  two instance groups is the composition, starting from the identity, of the group's
  fixed translation (\<open>(-2, 0, -6)\<close> for the pyramid, \<open>(2, 0, -6)\<close> for the knot), the rotation
  about X, then about Y, then about Z by the stored angles, and the uniform scale by the
  stored factor, in that order. \<open>setRotation\<close> keeps the stored scale and \<open>setScale\<close> the
  stored angles.
\<close>

theorem model_matrix_composition_order:
  "model (setRotation M x y z v) = instance_matrix M (- 2, 0, - 6) x y z (scaling v) \<and>
   knotModel (setRotation M x y z v) = instance_matrix M (2, 0, - 6) x y z (scaling v) \<and>
   model (setScale M s v) = instance_matrix M (- 2, 0, - 6) (rotX v) (rotY v) (rotZ v) s \<and>
   knotModel (setScale M s v) = instance_matrix M (2, 0, - 6) (rotX v) (rotY v) (rotZ v) s"
  by (simp add: setRotation_def setScale_def rotateAndScale_def instance_matrix_def
      compose_steps_def Let_def)

text \<open>
  C6. Transform updates do not accumulate: from every state, \<open>setScale(s1)\<close> followed by
  \<open>setScale(s2)\<close> leaves the view in the state \<open>setScale(s2)\<close> alone leaves it in, and
  \<open>setRotation(x, y, z)\<close> twice leaves it in the state of calling it once; in particular
  the two model matrices are the same.
\<close>

theorem transform_updates_do_not_accumulate:
  "setScale M s2 (setScale M s1 v) = setScale M s2 v \<and>
   setRotation M x y z (setRotation M x y z v) = setRotation M x y z v"
  by (simp add: setRotation_def setScale_def rotateAndScale_def Let_def)

text \<open>
  C9, as the code has it. \<open>paintGL\<close> issues two draw calls with fixed vertex counts: 18 for
  the pyramid's vertex array, which is the length of the pyramid array, and the constant
  3840 for the knot's vertex array, whatever mesh was loaded.
\<close>

theorem draw_calls_pass_fixed_counts:
  "draw_calls b (paintGL v) = [(array v, 18), (knotVAO v, 3840)] \<and>
   int (length (pyramid M)) = 18"
  by (simp add: paintGL_def pyramid_def Let_def)

lemma valid_long: "valid_source decimal_ops long_source"
  by (simp add: source_eval decimal_eval long_source_def)

lemma faces_long: "length (filter isFaceLine long_source) = 1281"
  by (simp add: source_eval long_source_def)

lemma length_corners_long: "length (corners decimal_ops long_source) = 3843"
proof -
  from valid_long have "\<forall>l \<in> set long_source. isFaceLine l \<longrightarrow> length (faceRefs decimal_ops l) = 3"
    by (simp add: valid_source_def)
  from length_references_triangles [OF this] show ?thesis
    by (simp add: corners_def faces_long)
qed

lemma Model_ctor_long:
  "Model_ctor decimal_ops (Some long_source) =
     Inr \<lparr>coordsIndexed = first_occurrences (corners decimal_ops long_source),
          indices = map (\<lambda>v. word_of_int (indexOf (first_occurrences (corners decimal_ops long_source)) v))
                      (corners decimal_ops long_source),
          coords = corners decimal_ops long_source\<rparr>"
  using valid_long by (intro Model_ctor_wellformed wellformed_if_valid)

lemma initializeGL_long:
  "\<exists>v. initializeGL symbolic_ops decimal_ops example_names (Some long_source)
          (MainView_ctor symbolic_ops) = Inr v \<and> array v = 1 \<and> knotVAO v = 2"
  by (simp add: initializeGL_def Model_ctor_long getMeshCoords_def fillArrayAndBuffer_def
      length_corners_long pyramid_def Let_def example_names_def MainView_ctor_def)

text \<open>
  C9 as stated fails: for a knot resource of 1281 triangles \<open>initializeGL\<close> succeeds, the
  mesh has 3843 flat vertices, and the draw call for the knot's vertex array passes 3840.
\<close>

theorem knot_draw_count_differs_from_mesh:
  "\<not> isl (initializeGL symbolic_ops decimal_ops example_names (Some long_source)
            (MainView_ctor symbolic_ops)) \<and>
   draw_calls 0 (paintGL (projr (initializeGL symbolic_ops decimal_ops example_names
     (Some long_source) (MainView_ctor symbolic_ops)))) = [(1, 18), (2, 3840)] \<and>
   int (length (getMeshCoords (projr (Model_ctor decimal_ops (Some long_source))))) = 3843"
proof -
  from initializeGL_long obtain v where
    v: "initializeGL symbolic_ops decimal_ops example_names (Some long_source)
          (MainView_ctor symbolic_ops) = Inr v" "array v = 1" "knotVAO v = 2"
    by blast
  have "draw_calls 0 (paintGL v) = [(1, 18), (2, 3840)]"
    by (simp add: paintGL_def v)
  moreover have "int (length (getMeshCoords (projr (Model_ctor decimal_ops (Some long_source))))) = 3843"
    by (simp add: Model_ctor_long getMeshCoords_def length_corners_long)
  ultimately show ?thesis
    by (simp add: v)
qed

end
